theory Spec2Isabelle
  imports Main
begin

section \<open>JavaScript values\<close>

text \<open>
  The form lives in \<^verbatim>\<open>src/app/page.tsx\<close>. A JavaScript string is modelled as a
  \<^typ>\<open>string\<close>, one \<^typ>\<open>char\<close> per code unit, so the model speaks about strings whose
  code units lie in the Latin-1 range. The values the form stores are strings, arrays of
  strings and booleans; \<^verbatim>\<open>undefined\<close> is \<^term>\<open>None\<close>.
\<close>

datatype jsval = JStr string | JArr "string list" | JBool bool

text \<open>Truthiness, as \<^verbatim>\<open>if (x)\<close> and \<^verbatim>\<open>!x\<close> read a value: an array is always truthy.\<close>

fun truthy :: "jsval option \<Rightarrow> bool" where
  "truthy None = False"
| "truthy (Some (JStr s)) = (s \<noteq> [])"
| "truthy (Some (JArr xs)) = True"
| "truthy (Some (JBool b)) = b"

fun join :: "string list \<Rightarrow> string" where
  "join [] = []"
| "join [x] = x"
| "join (x # y # ys) = x @ '','' @ join (y # ys)"

text \<open>The conversion \<^verbatim>\<open>RegExp.prototype.test\<close> applies to its argument.\<close>

fun ToString :: "jsval option \<Rightarrow> string" where
  "ToString None = ''undefined''"
| "ToString (Some (JStr s)) = s"
| "ToString (Some (JArr xs)) = join xs"
| "ToString (Some (JBool b)) = (if b then ''true'' else ''false'')"

text \<open>
  \<^verbatim>\<open>x.length < n\<close>: a boolean has no \<^verbatim>\<open>length\<close>, and \<^verbatim>\<open>undefined < n\<close> is false.
\<close>

fun length_less :: "jsval \<Rightarrow> nat \<Rightarrow> bool" where
  "length_less (JStr s) n = (length s < n)"
| "length_less (JArr xs) n = (length xs < n)"
| "length_less (JBool b) n = False"

text \<open>
  \<^verbatim>\<open>a !== b\<close> on strings and booleans compares the values. Arrays are compared by
  identity, which a \<^typ>\<open>jsval\<close> does not carry: two arrays are read as two objects, as they
  are when each comes from its own event (the Checkbox Group builds a new array for every
  event). One array object handed to the handler under two names is outside the model.
\<close>

fun strict_neq :: "jsval option \<Rightarrow> jsval option \<Rightarrow> bool" where
  "strict_neq None None = False"
| "strict_neq (Some (JStr a)) (Some (JStr b)) = (a \<noteq> b)"
| "strict_neq (Some (JBool a)) (Some (JBool b)) = (a \<noteq> b)"
| "strict_neq x y = True"

section \<open>Regular expressions\<close>

text \<open>
  White space as \<^verbatim>\<open>\s\<close> reads it, within Latin-1: TAB, LF, VT, FF, CR, SPACE and the
  no-break space.
\<close>

definition isSpace :: "char \<Rightarrow> bool" where
  "isSpace c = ((of_char c :: nat) \<in> {9, 10, 11, 12, 13, 32, 160})"

datatype cclass = NonSpace | Lit char

fun cmatch :: "cclass \<Rightarrow> char \<Rightarrow> bool" where
  "cmatch NonSpace c = (\<not> isSpace c)"
| "cmatch (Lit a) c = (c = a)"

datatype regex = Zero | One | Atom cclass | Alt regex regex | Seq regex regex | Star regex

definition Plus :: "regex \<Rightarrow> regex" where
  "Plus r = Seq r (Star r)"

fun nullable :: "regex \<Rightarrow> bool" where
  "nullable Zero = False"
| "nullable One = True"
| "nullable (Atom a) = False"
| "nullable (Alt r s) = (nullable r \<or> nullable s)"
| "nullable (Seq r s) = (nullable r \<and> nullable s)"
| "nullable (Star r) = True"

fun deriv :: "char \<Rightarrow> regex \<Rightarrow> regex" where
  "deriv c Zero = Zero"
| "deriv c One = Zero"
| "deriv c (Atom a) = (if cmatch a c then One else Zero)"
| "deriv c (Alt r s) = Alt (deriv c r) (deriv c s)"
| "deriv c (Seq r s) =
     (if nullable r then Alt (Seq (deriv c r) s) (deriv c s) else Seq (deriv c r) s)"
| "deriv c (Star r) = Seq (deriv c r) (Star r)"

text \<open>Does some prefix of the string match?\<close>

fun match_prefix :: "regex \<Rightarrow> string \<Rightarrow> bool" where
  "match_prefix r [] = nullable r"
| "match_prefix r (c # cs) = (nullable r \<or> match_prefix (deriv c r) cs)"

text \<open>
  \<^verbatim>\<open>re.test(s)\<close> for a regular expression without anchors and flags: try every start
  index, from the left.
\<close>

fun regex_test :: "regex \<Rightarrow> string \<Rightarrow> bool" where
  "regex_test r [] = match_prefix r []"
| "regex_test r (c # cs) = (match_prefix r (c # cs) \<or> regex_test r cs)"

text \<open>The words a regular expression denotes.\<close>

inductive_set star :: "string set \<Rightarrow> string set" for L :: "string set" where
  star_Nil: "[] \<in> star L"
| star_App: "u \<in> L \<Longrightarrow> v \<in> star L \<Longrightarrow> u @ v \<in> star L"

fun lang :: "regex \<Rightarrow> string set" where
  "lang Zero = {}"
| "lang One = {[]}"
| "lang (Atom a) = {[c] |c. cmatch a c}"
| "lang (Alt r s) = lang r \<union> lang s"
| "lang (Seq r s) = {u @ v |u v. u \<in> lang r \<and> v \<in> lang s}"
| "lang (Star r) = star (lang r)"

section \<open>Change events\<close>

text \<open>The \<^verbatim>\<open>target\<close> of a change event: each of its four properties may be absent.\<close>

record target =
  e_name :: "string option"
  e_value :: "jsval option"
  e_type :: "string option"
  e_checked :: "bool option"

section \<open>Choice controls\<close>

record Opt =
  opt_value :: string
  opt_label :: string

subsection \<open>Checkbox Group\<close>

text \<open>
  \<^verbatim>\<open>CheckboxGroup.handleChange\<close> receives the native event of one checkbox (its new
  \<^verbatim>\<open>checked\<close> flag and the option's value) and emits an event of its own.
\<close>

definition newValues :: "string list \<Rightarrow> bool \<Rightarrow> string \<Rightarrow> string list" where
  "newValues val checked optionValue =
     (if checked then val @ [optionValue] else filter (\<lambda>v. v \<noteq> optionValue) val)"

definition CheckboxGroup_handleChange ::
  "string option \<Rightarrow> string list \<Rightarrow> bool \<Rightarrow> string \<Rightarrow> target" where
  "CheckboxGroup_handleChange name val checked optionValue =
     \<lparr> e_name = name, e_value = Some (JArr (newValues val checked optionValue)),
       e_type = Some ''checkbox'', e_checked = None \<rparr>"

text \<open>
  A box is drawn checked when \<^verbatim>\<open>value.includes(option.value)\<close>; activating it hands the
  handler the opposite flag.
\<close>

definition toggle :: "string option \<Rightarrow> string list \<Rightarrow> string \<Rightarrow> target" where
  "toggle name val optionValue =
     CheckboxGroup_handleChange name val (\<not> List.member val optionValue) optionValue"

subsection \<open>Toggle\<close>

definition handleToggle :: "string option \<Rightarrow> bool \<Rightarrow> target" where
  "handleToggle name checked =
     \<lparr> e_name = name, e_value = None, e_type = Some ''checkbox'',
       e_checked = Some (\<not> checked) \<rparr>"

subsection \<open>Searchable Select\<close>

text \<open>
  \<^verbatim>\<open>toLowerCase\<close> on Latin-1 code units: the letters A to Z, and the accented capitals
  U+00C0 to U+00DE without the multiplication sign U+00D7, move up by 32.
\<close>

definition lower_char :: "char \<Rightarrow> char" where
  "lower_char c =
     (let n = (of_char c :: nat)
      in if (65 \<le> n \<and> n \<le> 90) \<or> (192 \<le> n \<and> n \<le> 222 \<and> n \<noteq> 215)
         then char_of (n + 32) else c)"

definition toLowerCase :: "string \<Rightarrow> string" where
  "toLowerCase s = map lower_char s"

fun startsWith :: "string \<Rightarrow> string \<Rightarrow> bool" where
  "startsWith s [] = True"
| "startsWith [] (p # ps) = False"
| "startsWith (c # cs) (p # ps) = (c = p \<and> startsWith cs ps)"

text \<open>\<^verbatim>\<open>s.includes(t)\<close>: does \<open>t\<close> start at some index of \<open>s\<close>?\<close>

fun str_includes :: "string \<Rightarrow> string \<Rightarrow> bool" where
  "str_includes [] t = startsWith [] t"
| "str_includes (c # cs) t = (startsWith (c # cs) t \<or> str_includes cs t)"

definition filteredOptions :: "bool \<Rightarrow> Opt list \<Rightarrow> string \<Rightarrow> Opt list" where
  "filteredOptions enableSearch options search =
     (if enableSearch
      then filter (\<lambda>opt. str_includes (toLowerCase (opt_label opt)) (toLowerCase search)) options
      else options)"

record Select_state =
  isOpen :: bool
  searchTerm :: string

text \<open>
  A row of the list in the open dropdown: its text, and what a click on it does when it has a
  click handler (the event handed to \<^verbatim>\<open>onChange\<close> and the control's next local state).
\<close>

datatype li = Li (li_text: string) (li_onClick: "(target \<times> Select_state) option")

definition Select_items :: "string option \<Rightarrow> bool \<Rightarrow> Opt list \<Rightarrow> string \<Rightarrow> li list" where
  "Select_items name enableSearch options search =
     (let fo = filteredOptions enableSearch options search
      in if length fo > 0
         then map (\<lambda>option.
                Li (opt_label option)
                  (Some (\<lparr> e_name = name, e_value = Some (JStr (opt_value option)),
                            e_type = None, e_checked = None \<rparr>,
                         \<lparr> isOpen = False, searchTerm = [] \<rparr>))) fo
         else [Li ''No options found'' None])"

section \<open>The Form wrapper\<close>

text \<open>
  \<^verbatim>\<open>Form.handleSubmit\<close>: what the wrapper does with a submit event, in order. The prop
  \<^verbatim>\<open>isValid\<close> defaults to true when it is not passed.
\<close>

datatype 'h action = PreventDefault | Invoke 'h

definition Form_handleSubmit :: "bool option \<Rightarrow> 'h option \<Rightarrow> 'h action list" where
  "Form_handleSubmit isValid onSubmit =
     PreventDefault #
     (case onSubmit of
        None \<Rightarrow> []
      | Some h \<Rightarrow> (if (case isValid of None \<Rightarrow> True | Some b \<Rightarrow> b) then [Invoke h] else []))"

section \<open>The orchestrator\<close>

datatype form_type = Login | Register | Forgot

record LoginSystem =
  formType :: form_type
  formData :: "string \<rightharpoonup> jsval"
  errors :: "string \<rightharpoonup> string"

definition initial :: LoginSystem where
  "initial =
     \<lparr> formType = Login,
       formData = [''email'' \<mapsto> JStr '''', ''password'' \<mapsto> JStr '''',
                   ''confirmPassword'' \<mapsto> JStr '''', ''name'' \<mapsto> JStr '''',
                   ''gender'' \<mapsto> JStr '''', ''role'' \<mapsto> JStr ''user'',
                   ''rememberMe'' \<mapsto> JBool False, ''acceptTerms'' \<mapsto> JBool False,
                   ''bio'' \<mapsto> JStr '''', ''interests'' \<mapsto> JArr [],
                   ''marketingPreferences'' \<mapsto> JStr ''''],
       errors = Map.empty \<rparr>"

text \<open>
  \<^verbatim>\<open>errors\<close> is a plain object, so \<^verbatim>\<open>errors[name]\<close> finds the object's own entry or,
  when it has none under that name, what the name means on \<^verbatim>\<open>Object.prototype\<close>: a
  function or an object, which is truthy. An own entry is truthy when its message is not empty.
\<close>

definition Object_prototype :: "string list" where
  "Object_prototype =
     [''constructor'', ''__defineGetter__'', ''__defineSetter__'', ''hasOwnProperty'',
      ''__lookupGetter__'', ''__lookupSetter__'', ''isPrototypeOf'', ''propertyIsEnumerable'',
      ''toString'', ''valueOf'', ''__proto__'', ''toLocaleString'']"

definition has_error :: "(string \<rightharpoonup> string) \<Rightarrow> string \<Rightarrow> bool" where
  "has_error errs n =
     (case errs n of None \<Rightarrow> List.member Object_prototype n | Some msg \<Rightarrow> msg \<noteq> [])"

text \<open>
  \<^verbatim>\<open>handleChange\<close>. The guard \<^verbatim>\<open>if (name)\<close> passes for a name that is present and not
  the empty string.
\<close>

definition stored :: "target \<Rightarrow> jsval option" where
  "stored t =
     (if e_type t = Some ''checkbox'' \<and> e_checked t \<noteq> None
      then map_option JBool (e_checked t) else e_value t)"

definition handleChange :: "target \<Rightarrow> LoginSystem \<Rightarrow> LoginSystem" where
  "handleChange t st =
     (case e_name t of
        None \<Rightarrow> st
      | Some n \<Rightarrow>
          if n = [] then st
          else
            (let st1 = st\<lparr>formData := (formData st)(n := stored t)\<rparr>
             in if has_error (errors st) n
                then st1\<lparr>errors := (errors st)(n \<mapsto> '''')\<rparr>
                else st1))"

text \<open>\<^verbatim>\<open>isFormValid\<close>, derived on every render: \<^verbatim>\<open>Object.keys(errors).length === 0\<close>.\<close>

definition isFormValid :: "LoginSystem \<Rightarrow> bool" where
  "isFormValid st = (dom (errors st) = {})"

text \<open>The four buttons that change the mode, where each is rendered and what a click does.\<close>

datatype button = ForgotYourPassword | SignUp | SignIn | BackToLogin

fun rendered :: "form_type \<Rightarrow> button \<Rightarrow> bool" where
  "rendered ft ForgotYourPassword = (ft = Login)"
| "rendered ft SignUp = (ft = Login)"
| "rendered ft SignIn = (ft = Register)"
| "rendered ft BackToLogin = (ft = Forgot)"

fun onClick :: "button \<Rightarrow> LoginSystem \<Rightarrow> LoginSystem" where
  "onClick ForgotYourPassword st = st\<lparr>formType := Forgot\<rparr>"
| "onClick SignUp st = st\<lparr>formType := Register, errors := Map.empty\<rparr>"
| "onClick SignIn st = st\<lparr>formType := Login, errors := Map.empty\<rparr>"
| "onClick BackToLogin st = st\<lparr>formType := Login, errors := Map.empty\<rparr>"

subsection \<open>Validation\<close>

text \<open>The pattern \<^verbatim>\<open>/\S+@\S+\.\S+/\<close>.\<close>

definition email_regex :: regex where
  "email_regex =
     Seq (Plus (Atom NonSpace))
       (Seq (Atom (Lit CHR ''@''))
          (Seq (Plus (Atom NonSpace))
             (Seq (Atom (Lit CHR ''.'')) (Plus (Atom NonSpace)))))"

definition check_email :: "LoginSystem \<Rightarrow> (string \<rightharpoonup> string) \<Rightarrow> (string \<rightharpoonup> string)" where
  "check_email st newErrors =
     (if \<not> truthy (formData st ''email'') then newErrors(''email'' \<mapsto> ''Email is required'')
      else if \<not> regex_test email_regex (ToString (formData st ''email''))
      then newErrors(''email'' \<mapsto> ''Email is invalid'')
      else newErrors)"

text \<open>
  In the second branch \<^verbatim>\<open>formData.password\<close> is not \<^verbatim>\<open>undefined\<close>: that value is
  falsy, and in Register mode the first branch has taken it.
\<close>

definition check_password :: "LoginSystem \<Rightarrow> (string \<rightharpoonup> string) \<Rightarrow> (string \<rightharpoonup> string)" where
  "check_password st newErrors =
     (if formType st \<noteq> Forgot \<and> \<not> truthy (formData st ''password'')
      then newErrors(''password'' \<mapsto> ''Password is required'')
      else if formType st = Register \<and>
              (case formData st ''password'' of None \<Rightarrow> False | Some v \<Rightarrow> length_less v 8)
      then newErrors(''password'' \<mapsto> ''Password must be at least 8 characters'')
      else newErrors)"

definition check_confirmPassword ::
  "LoginSystem \<Rightarrow> (string \<rightharpoonup> string) \<Rightarrow> (string \<rightharpoonup> string)" where
  "check_confirmPassword st newErrors =
     (if formType st = Register \<and>
         strict_neq (formData st ''password'') (formData st ''confirmPassword'')
      then newErrors(''confirmPassword'' \<mapsto> ''Passwords do not match'')
      else newErrors)"

definition check_name :: "LoginSystem \<Rightarrow> (string \<rightharpoonup> string) \<Rightarrow> (string \<rightharpoonup> string)" where
  "check_name st newErrors =
     (if formType st = Register \<and> \<not> truthy (formData st ''name'')
      then newErrors(''name'' \<mapsto> ''Name is required'')
      else newErrors)"

definition check_gender :: "LoginSystem \<Rightarrow> (string \<rightharpoonup> string) \<Rightarrow> (string \<rightharpoonup> string)" where
  "check_gender st newErrors =
     (if formType st = Register \<and> \<not> truthy (formData st ''gender'')
      then newErrors(''gender'' \<mapsto> ''Gender is required'')
      else newErrors)"

definition check_acceptTerms ::
  "LoginSystem \<Rightarrow> (string \<rightharpoonup> string) \<Rightarrow> (string \<rightharpoonup> string)" where
  "check_acceptTerms st newErrors =
     (if formType st = Register \<and> \<not> truthy (formData st ''acceptTerms'')
      then newErrors(''acceptTerms'' \<mapsto> ''You must accept the terms'')
      else newErrors)"

definition newErrors :: "LoginSystem \<Rightarrow> (string \<rightharpoonup> string)" where
  "newErrors st =
     check_acceptTerms st (check_gender st (check_name st
       (check_confirmPassword st (check_password st (check_email st Map.empty)))))"

text \<open>\<^verbatim>\<open>validateForm\<close> stores the fresh error map and returns whether it has no key.\<close>

definition validateForm :: "LoginSystem \<Rightarrow> bool \<times> LoginSystem" where
  "validateForm st = (dom (newErrors st) = {}, st\<lparr>errors := newErrors st\<rparr>)"

subsection \<open>What the orchestrator renders\<close>

definition roleOptions :: "Opt list" where
  "roleOptions =
     [\<lparr> opt_value = ''user'', opt_label = ''Regular User'' \<rparr>,
      \<lparr> opt_value = ''admin'', opt_label = ''Administrator'' \<rparr>,
      \<lparr> opt_value = ''editor'', opt_label = ''Content Editor'' \<rparr>]"

text \<open>
  The form is rendered with \<^verbatim>\<open>onSubmit={handleSubmit}\<close> and \<^verbatim>\<open>isValid={isFormValid}\<close>, and
  its submit button with \<^verbatim>\<open>disabled={!isFormValid}\<close>.
\<close>

datatype handler = HandleSubmit

definition submit_form :: "LoginSystem \<Rightarrow> handler action list" where
  "submit_form st = Form_handleSubmit (Some (isFormValid st)) (Some HandleSubmit)"

definition submit_disabled :: "LoginSystem \<Rightarrow> bool" where
  "submit_disabled st = (\<not> isFormValid st)"

section \<open>The specification's notions\<close>

text \<open>A run \<open><non-space>+\<close>: one or more characters, none of them white space.\<close>

definition nonspaces :: "string \<Rightarrow> bool" where
  "nonspaces w \<longleftrightarrow> w \<noteq> [] \<and> (\<forall>c \<in> set w. \<not> isSpace c)"

text \<open>
  A string of the shape \<open><non-space>+@<non-space>+.<non-space>+\<close>: three such runs, with
  \<open>@\<close> between the first two and a dot between the last two.
\<close>

definition spec_email_pattern :: "string \<Rightarrow> bool" where
  "spec_email_pattern s \<longleftrightarrow>
     (\<exists>a b c. s = a @ ''@'' @ b @ ''.'' @ c \<and> nonspaces a \<and> nonspaces b \<and> nonspaces c)"

text \<open>Some stretch of the string has that shape.\<close>

definition email_pattern_within :: "string \<Rightarrow> bool" where
  "email_pattern_within s \<longleftrightarrow> (\<exists>p u q. s = p @ u @ q \<and> spec_email_pattern u)"

text \<open>
  A label contains the search string as a case-insensitive substring: some stretch of the
  label equals the search string once the case of both is ignored.
\<close>

definition spec_contains_ci :: "string \<Rightarrow> string \<Rightarrow> bool" where
  "spec_contains_ci label search \<longleftrightarrow>
     (\<exists>p m q. label = p @ m @ q \<and> toLowerCase m = toLowerCase search)"

section \<open>Properties: regular expressions\<close>

lemma star_Cons_iff:
  "c # w \<in> star L \<longleftrightarrow> (\<exists>u v. w = u @ v \<and> c # u \<in> L \<and> v \<in> star L)"
proof
  assume "c # w \<in> star L"
  then show "\<exists>u v. w = u @ v \<and> c # u \<in> L \<and> v \<in> star L"
  proof (induction "c # w" arbitrary: w rule: star.induct)
    case (star_App u v)
    show ?case
    proof (cases u)
      case Nil
      with star_App show ?thesis by simp
    next
      case (Cons a u')
      with star_App.hyps show ?thesis by auto
    qed
  qed
next
  assume "\<exists>u v. w = u @ v \<and> c # u \<in> L \<and> v \<in> star L"
  then obtain u v where "w = u @ v" "c # u \<in> L" "v \<in> star L" by blast
  then show "c # w \<in> star L" using star_App [of "c # u" L v] by simp
qed

lemma nullable_iff: "nullable r \<longleftrightarrow> [] \<in> lang r"
  by (induction r) (auto intro: star_Nil)

lemma lang_deriv: "w \<in> lang (deriv c r) \<longleftrightarrow> c # w \<in> lang r"
proof (induction r arbitrary: w)
  case (Seq r s)
  show ?case
    by (auto simp: Seq nullable_iff Cons_eq_append_conv)
next
  case (Star r)
  show ?case by (auto simp: Star star_Cons_iff)
qed auto

lemma match_prefix_iff: "match_prefix r s \<longleftrightarrow> (\<exists>u v. s = u @ v \<and> u \<in> lang r)"
proof (induction s arbitrary: r)
  case Nil
  show ?case by (simp add: nullable_iff)
next
  case (Cons c cs)
  have "(\<exists>u v. c # cs = u @ v \<and> u \<in> lang r) \<longleftrightarrow>
        [] \<in> lang r \<or> (\<exists>u v. cs = u @ v \<and> c # u \<in> lang r)"
    by (auto simp: Cons_eq_append_conv)
  then show ?case by (simp add: Cons.IH nullable_iff lang_deriv)
qed

lemma regex_test_iff: "regex_test r s \<longleftrightarrow> (\<exists>p u q. s = p @ u @ q \<and> u \<in> lang r)"
proof (induction s)
  case Nil
  show ?case by (simp add: nullable_iff)
next
  case (Cons c cs)
  have "(\<exists>p u q. c # cs = p @ u @ q \<and> u \<in> lang r) \<longleftrightarrow>
        (\<exists>u q. c # cs = u @ q \<and> u \<in> lang r) \<or> (\<exists>p u q. cs = p @ u @ q \<and> u \<in> lang r)"
    (is "?L \<longleftrightarrow> ?A \<or> ?B")
  proof
    assume ?L
    then obtain p u q where *: "c # cs = p @ u @ q" "u \<in> lang r" by blast
    show "?A \<or> ?B"
    proof (cases p)
      case Nil
      with * show ?thesis by auto
    next
      case (Cons a p')
      with * have "cs = p' @ u @ q" by simp
      with * show ?thesis by blast
    qed
  next
    assume "?A \<or> ?B"
    then show ?L
    proof
      assume ?A
      then obtain u q where "c # cs = [] @ u @ q" "u \<in> lang r" by auto
      then show ?L by blast
    next
      assume ?B
      then obtain p u q where "c # cs = (c # p) @ u @ q" "u \<in> lang r" by auto
      then show ?L by blast
    qed
  qed
  then show ?case using Cons.IH match_prefix_iff [of r "c # cs"] by simp
qed

lemma star_NonSpace: "w \<in> star {[c] |c. \<not> isSpace c} \<longleftrightarrow> (\<forall>c \<in> set w. \<not> isSpace c)"
proof
  assume "w \<in> star {[c] |c. \<not> isSpace c}"
  then show "\<forall>c \<in> set w. \<not> isSpace c"
    by (induction rule: star.induct) auto
next
  assume "\<forall>c \<in> set w. \<not> isSpace c"
  then show "w \<in> star {[c] |c. \<not> isSpace c}"
  proof (induction w)
    case Nil
    show ?case by (rule star_Nil)
  next
    case (Cons a w)
    then have "[a] \<in> {[c] |c. \<not> isSpace c}" "w \<in> star {[c] |c. \<not> isSpace c}" by auto
    then have "[a] @ w \<in> star {[c] |c. \<not> isSpace c}" by (rule star_App)
    then show ?case by simp
  qed
qed

lemma lang_Seq_iff: "w \<in> lang (Seq r s) \<longleftrightarrow> (\<exists>u v. w = u @ v \<and> u \<in> lang r \<and> v \<in> lang s)"
  by auto

lemma lang_Lit_iff: "w \<in> lang (Atom (Lit a)) \<longleftrightarrow> w = [a]"
  by auto

lemma lang_Plus_NonSpace: "w \<in> lang (Plus (Atom NonSpace)) \<longleftrightarrow> nonspaces w"
proof
  assume "w \<in> lang (Plus (Atom NonSpace))"
  then obtain c v where "w = [c] @ v" "\<not> isSpace c" "v \<in> star {[c] |c. \<not> isSpace c}"
    by (auto simp: Plus_def)
  then show "nonspaces w" by (simp add: nonspaces_def star_NonSpace)
next
  assume "nonspaces w"
  then obtain c v where w: "w = c # v" and c: "\<not> isSpace c" and v: "\<forall>x \<in> set v. \<not> isSpace x"
    by (cases w) (auto simp: nonspaces_def)
  from v have "v \<in> lang (Star (Atom NonSpace))" by (simp add: star_NonSpace)
  moreover from c have "[c] \<in> lang (Atom NonSpace)" by simp
  ultimately have "[c] @ v \<in> lang (Seq (Atom NonSpace) (Star (Atom NonSpace)))"
    unfolding lang_Seq_iff by blast
  with w show "w \<in> lang (Plus (Atom NonSpace))" by (simp add: Plus_def)
qed

lemma lang_email_regex: "u \<in> lang email_regex \<longleftrightarrow> spec_email_pattern u"
  unfolding email_regex_def lang_Seq_iff lang_Lit_iff lang_Plus_NonSpace spec_email_pattern_def
  by (metis append_Cons append_Nil)

lemma regex_test_email: "regex_test email_regex s \<longleftrightarrow> email_pattern_within s"
  unfolding regex_test_iff lang_email_regex email_pattern_within_def ..

lemma spec_email_pattern_no_space:
  assumes "spec_email_pattern s"
  shows "\<forall>c \<in> set s. \<not> isSpace c"
proof -
  from assms obtain a b c where s: "s = a @ ''@'' @ b @ ''.'' @ c"
    and n: "nonspaces a" "nonspaces b" "nonspaces c"
    unfolding spec_email_pattern_def by blast
  have "\<not> isSpace CHR ''@''" "\<not> isSpace CHR ''.''"
    by (simp_all add: isSpace_def)
  with n show ?thesis
    unfolding s nonspaces_def by auto
qed

text \<open>
  On a string without white space the two readings agree: a stretch of the shape extends to the
  whole string.
\<close>

lemma email_pattern_within_no_space:
  assumes "\<forall>c \<in> set s. \<not> isSpace c"
  shows "email_pattern_within s \<longleftrightarrow> spec_email_pattern s"
proof
  assume "email_pattern_within s"
  then obtain p u q a b c where s: "s = p @ u @ q" and u: "u = a @ ''@'' @ b @ ''.'' @ c"
    and n: "nonspaces a" "nonspaces b" "nonspaces c"
    unfolding email_pattern_within_def spec_email_pattern_def by blast
  from assms s have "\<forall>x \<in> set p. \<not> isSpace x" "\<forall>x \<in> set q. \<not> isSpace x"
    by auto
  with n have "nonspaces (p @ a)" "nonspaces (c @ q)"
    by (auto simp: nonspaces_def)
  moreover have "s = (p @ a) @ ''@'' @ b @ ''.'' @ (c @ q)"
    using s u by simp
  ultimately show "spec_email_pattern s"
    unfolding spec_email_pattern_def using n(2) by blast
next
  assume "spec_email_pattern s"
  moreover have "s = [] @ s @ []" by simp
  ultimately show "email_pattern_within s"
    unfolding email_pattern_within_def by blast
qed

section \<open>Properties: validation\<close>

lemma newErrors_email:
  "newErrors st ''email'' =
     (if \<not> truthy (formData st ''email'') then Some ''Email is required''
      else if \<not> regex_test email_regex (ToString (formData st ''email''))
      then Some ''Email is invalid'' else None)"
  by (simp add: newErrors_def check_email_def check_password_def check_confirmPassword_def
      check_name_def check_gender_def check_acceptTerms_def)

lemma newErrors_password:
  "newErrors st ''password'' =
     (if formType st \<noteq> Forgot \<and> \<not> truthy (formData st ''password'')
      then Some ''Password is required''
      else if formType st = Register \<and>
              (case formData st ''password'' of None \<Rightarrow> False | Some v \<Rightarrow> length_less v 8)
      then Some ''Password must be at least 8 characters'' else None)"
  by (simp add: newErrors_def check_email_def check_password_def check_confirmPassword_def
      check_name_def check_gender_def check_acceptTerms_def)

lemma newErrors_confirmPassword:
  "newErrors st ''confirmPassword'' =
     (if formType st = Register \<and>
         strict_neq (formData st ''password'') (formData st ''confirmPassword'')
      then Some ''Passwords do not match'' else None)"
  by (simp add: newErrors_def check_email_def check_password_def check_confirmPassword_def
      check_name_def check_gender_def check_acceptTerms_def)

text \<open>
  C4 has the error \<open>Email is invalid\<close> exactly when the email fails the pattern. An email
  with white space in it fails the pattern, and validation accepts it when a stretch of it has
  the shape: the regular expression has no anchors.
\<close>
theorem email_with_space_accepted:
  "''x y@z.w'' \<noteq> [] \<and> \<not> spec_email_pattern ''x y@z.w'' \<and>
   errors (snd (validateForm
     (initial\<lparr>formData := (formData initial)(''email'' \<mapsto> JStr ''x y@z.w'')\<rparr>)))
     ''email'' = None"
proof -
  have "isSpace CHR '' ''"
    by (simp add: isSpace_def)
  then have "\<not> (\<forall>c \<in> set ''x y@z.w''. \<not> isSpace c)"
    by simp
  then have a: "\<not> spec_email_pattern ''x y@z.w''"
    using spec_email_pattern_no_space by blast
  have b: "errors (snd (validateForm
     (initial\<lparr>formData := (formData initial)(''email'' \<mapsto> JStr ''x y@z.w'')\<rparr>)))
     ''email'' = None"
    by (simp add: validateForm_def newErrors_email email_regex_def Plus_def isSpace_def)
  from a b show ?thesis by simp
qed

text \<open>
  C4, amended. In every mode, validation of an email string gives the error
  \<open>Email is required\<close> when the string is empty; for a non-empty string it gives
  \<open>Email is invalid\<close> exactly when no stretch of the string has the shape
  \<open><non-space>+@<non-space>+.<non-space>+\<close>, and no email error otherwise.
\<close>
theorem email_validation:
  assumes "formData st ''email'' = Some (JStr e)"
  shows "errors (snd (validateForm st)) ''email'' =
           (if e = [] then Some ''Email is required''
            else if \<not> email_pattern_within e then Some ''Email is invalid''
            else None)"
  using assms by (simp add: validateForm_def newErrors_email regex_test_email)

theorem email_validation_witness:
  "formData (initial\<lparr>formData := (formData initial)(''email'' \<mapsto> JStr ''bad-format'')\<rparr>)
     ''email'' = Some (JStr ''bad-format'') \<and>
   errors (snd (validateForm
     (initial\<lparr>formData := (formData initial)(''email'' \<mapsto> JStr ''bad-format'')\<rparr>)))
     ''email'' = Some ''Email is invalid''"
  (is "formData ?st _ = _ \<and> _")
proof -
  have h: "formData ?st ''email'' = Some (JStr ''bad-format'')"
    by simp
  have "\<not> regex_test email_regex ''bad-format''"
    by (simp add: email_regex_def Plus_def isSpace_def)
  then have n: "\<not> email_pattern_within ''bad-format''"
    unfolding regex_test_email .
  from email_validation [OF h] n
  have "errors (snd (validateForm ?st)) ''email'' = Some ''Email is invalid''"
    by simp
  with h show ?thesis by (intro conjI)
qed

text \<open>
  C5. Validation of a password string: outside Forgot mode an empty password gives
  \<open>Password is required\<close>; in Register mode a non-empty password of fewer than 8 characters
  gives the length error (an empty one keeps the required message, by the first part); in
  Forgot mode there is no password error; a non-empty password of at least 8 characters gets
  no password error in any mode.
\<close>
theorem password_validation:
  assumes "formData st ''password'' = Some (JStr p)"
  shows "(formType st \<noteq> Forgot \<and> p = [] \<longrightarrow>
            errors (snd (validateForm st)) ''password'' = Some ''Password is required'') \<and>
         (formType st = Register \<and> p \<noteq> [] \<and> length p < 8 \<longrightarrow>
            errors (snd (validateForm st)) ''password'' =
              Some ''Password must be at least 8 characters'') \<and>
         (formType st = Forgot \<longrightarrow> errors (snd (validateForm st)) ''password'' = None) \<and>
         (p \<noteq> [] \<and> 8 \<le> length p \<longrightarrow> errors (snd (validateForm st)) ''password'' = None)"
  using assms by (simp add: validateForm_def newErrors_password)

theorem password_validation_witness:
  "formData (initial\<lparr>formType := Register,
       formData := (formData initial)(''password'' \<mapsto> JStr ''short1'')\<rparr>) ''password'' =
     Some (JStr ''short1'') \<and>
   errors (snd (validateForm (initial\<lparr>formType := Register,
       formData := (formData initial)(''password'' \<mapsto> JStr ''short1'')\<rparr>))) ''password'' =
     Some ''Password must be at least 8 characters''"
  (is "formData ?st _ = _ \<and> _")
proof -
  have h: "formData ?st ''password'' = Some (JStr ''short1'')"
    by simp
  from password_validation [OF h]
  have "errors (snd (validateForm ?st)) ''password'' =
          Some ''Password must be at least 8 characters''"
    by simp
  with h show ?thesis by (intro conjI)
qed

text \<open>
  C6. For password and confirmation strings, validation gives \<open>Passwords do not match\<close> under
  \<open>confirmPassword\<close> exactly when the mode is Register and the two strings differ; in every
  other case there is no entry under that key.
\<close>
theorem confirmPassword_validation:
  assumes "formData st ''password'' = Some (JStr p)"
    and "formData st ''confirmPassword'' = Some (JStr c)"
  shows "errors (snd (validateForm st)) ''confirmPassword'' =
           (if formType st = Register \<and> c \<noteq> p then Some ''Passwords do not match''
            else None)"
  using assms by (auto simp: validateForm_def newErrors_confirmPassword)

theorem confirmPassword_validation_witness:
  "formData (initial\<lparr>formType := Register,
       formData := (formData initial)(''password'' \<mapsto> JStr ''abc12345'',
                                      ''confirmPassword'' \<mapsto> JStr ''abc12346'')\<rparr>)
     ''password'' = Some (JStr ''abc12345'') \<and>
   formData (initial\<lparr>formType := Register,
       formData := (formData initial)(''password'' \<mapsto> JStr ''abc12345'',
                                      ''confirmPassword'' \<mapsto> JStr ''abc12346'')\<rparr>)
     ''confirmPassword'' = Some (JStr ''abc12346'') \<and>
   errors (snd (validateForm (initial\<lparr>formType := Register,
       formData := (formData initial)(''password'' \<mapsto> JStr ''abc12345'',
                                      ''confirmPassword'' \<mapsto> JStr ''abc12346'')\<rparr>)))
     ''confirmPassword'' = Some ''Passwords do not match''"
  (is "formData ?st _ = _ \<and> _ \<and> _")
proof -
  have h1: "formData ?st ''password'' = Some (JStr ''abc12345'')"
    by simp
  have h2: "formData ?st ''confirmPassword'' = Some (JStr ''abc12346'')"
    by simp
  from confirmPassword_validation [OF h1 h2]
  have "errors (snd (validateForm ?st)) ''confirmPassword'' = Some ''Passwords do not match''"
    by simp
  with h1 h2 show ?thesis by (intro conjI)
qed

section \<open>Properties: change events, modes and the submit gate\<close>

text \<open>The handler never removes a key of the error map.\<close>

lemma dom_errors_handleChange: "dom (errors st) \<subseteq> dom (errors (handleChange t st))"
  by (auto simp: handleChange_def Let_def split: option.splits)

lemma dom_errors_fold_handleChange:
  "dom (errors st) \<subseteq> dom (errors (fold handleChange ts st))"
proof (induction ts arbitrary: st)
  case Nil
  show ?case by simp
next
  case (Cons t ts)
  have "dom (errors st) \<subseteq> dom (errors (handleChange t st))"
    by (rule dom_errors_handleChange)
  also have "\<dots> \<subseteq> dom (errors (fold handleChange ts (handleChange t st)))"
    by (rule Cons.IH)
  finally show ?case by simp
qed

text \<open>
  It can add one: a name that the error map does not hold and \<^verbatim>\<open>Object.prototype\<close> does
  is read as an error.
\<close>

lemma inherited_name_adds_key:
  "errors (handleChange \<lparr> e_name = Some ''toString'', e_value = Some (JStr ''x''),
                          e_type = None, e_checked = None \<rparr> initial) =
     [''toString'' \<mapsto> '''']"
  by (simp add: handleChange_def has_error_def Object_prototype_def initial_def)

lemma validateForm_fails: "\<not> fst (validateForm st) \<Longrightarrow> \<not> isFormValid (snd (validateForm st))"
  by (simp add: validateForm_def isFormValid_def)

lemma onClick_resets:
  "b \<noteq> ForgotYourPassword \<Longrightarrow> errors (onClick b st) = Map.empty"
  by (cases b) simp_all

text \<open>
  C1. The specification has one change event for a field with an error entry remove that key
  from the error map. The handler writes the empty string under the key instead: here the
  \<open>email\<close> entry left by a failed validation is still a key of the map after the field is
  edited.
\<close>
theorem change_leaves_error_key:
  "errors (handleChange \<lparr> e_name = Some ''email'', e_value = Some (JStr ''a@b.c''),
                          e_type = Some ''email'', e_checked = Some False \<rparr>
             (initial\<lparr>errors := [''email'' \<mapsto> ''Email is required'']\<rparr>)) =
     [''email'' \<mapsto> ''''] \<and>
   dom (errors (handleChange \<lparr> e_name = Some ''email'', e_value = Some (JStr ''a@b.c''),
                               e_type = Some ''email'', e_checked = Some False \<rparr>
                  (initial\<lparr>errors := [''email'' \<mapsto> ''Email is required'']\<rparr>))) =
     {''email''}"
  by (simp add: handleChange_def has_error_def initial_def stored_def)

text \<open>
  C2. The specification has every change of mode empty the error map. The handler of the
  \<open>Forgot your password?\<close> button, rendered in Login mode, sets the mode only: after a
  failed submit of the untouched login form, a click on it leads to Forgot mode with both
  entries still in the map, and the form invalid.
\<close>
theorem forgot_link_keeps_errors:
  "rendered (formType (snd (validateForm initial))) ForgotYourPassword \<and>
   formType (onClick ForgotYourPassword (snd (validateForm initial))) = Forgot \<and>
   errors (onClick ForgotYourPassword (snd (validateForm initial))) =
     [''email'' \<mapsto> ''Email is required'', ''password'' \<mapsto> ''Password is required''] \<and>
   \<not> isFormValid (onClick ForgotYourPassword (snd (validateForm initial)))"
  by (simp add: validateForm_def newErrors_def check_email_def check_password_def
      check_confirmPassword_def check_name_def check_gender_def check_acceptTerms_def
      initial_def isFormValid_def)

text \<open>
  C3. Once the error map has a key, any sequence of change events leaves every key in the map
  (the handler writes the empty string under a key, it never deletes one), so the derived
  validity flag stays false, the submit button stays disabled, and a submit event through the
  Form wrapper prevents the default action and does not invoke the submit handler.
\<close>
theorem errors_outlive_change_events:
  assumes "\<not> isFormValid st"
  shows "dom (errors st) \<subseteq> dom (errors (fold handleChange ts st)) \<and>
         \<not> isFormValid (fold handleChange ts st) \<and>
         submit_disabled (fold handleChange ts st) \<and>
         submit_form (fold handleChange ts st) = [PreventDefault]"
proof -
  have sub: "dom (errors st) \<subseteq> dom (errors (fold handleChange ts st))"
    by (rule dom_errors_fold_handleChange)
  with assms have "\<not> isFormValid (fold handleChange ts st)"
    by (auto simp: isFormValid_def)
  with sub show ?thesis
    by (simp add: submit_disabled_def submit_form_def Form_handleSubmit_def)
qed

theorem errors_outlive_change_events_witness:
  "\<not> isFormValid (snd (validateForm initial)) \<and>
   \<not> isFormValid (fold handleChange
        [\<lparr> e_name = Some ''email'', e_value = Some (JStr ''a@b.c''),
            e_type = Some ''email'', e_checked = Some False \<rparr>,
         \<lparr> e_name = Some ''password'', e_value = Some (JStr ''longenough1''),
            e_type = Some ''password'', e_checked = Some False \<rparr>]
        (snd (validateForm initial))) \<and>
   fst (validateForm (fold handleChange
        [\<lparr> e_name = Some ''email'', e_value = Some (JStr ''a@b.c''),
            e_type = Some ''email'', e_checked = Some False \<rparr>,
         \<lparr> e_name = Some ''password'', e_value = Some (JStr ''longenough1''),
            e_type = Some ''password'', e_checked = Some False \<rparr>]
        (snd (validateForm initial))))"
  (is "_ \<and> \<not> isFormValid (fold handleChange ?ts _) \<and> _")
proof -
  have h: "\<not> isFormValid (snd (validateForm initial))"
    by (simp add: validateForm_def newErrors_def check_email_def check_password_def
        check_confirmPassword_def check_name_def check_gender_def check_acceptTerms_def
        initial_def isFormValid_def)
  have v: "fst (validateForm (fold handleChange ?ts (snd (validateForm initial))))"
    by (simp add: validateForm_def newErrors_def check_email_def check_password_def
        check_confirmPassword_def check_name_def check_gender_def check_acceptTerms_def
        initial_def handleChange_def has_error_def stored_def email_regex_def Plus_def
        isSpace_def)
  from errors_outlive_change_events [OF h, of ?ts]
  have "\<not> isFormValid (fold handleChange ?ts (snd (validateForm initial)))"
    by (rule conjunct2 [THEN conjunct1])
  with h v show ?thesis by (intro conjI)
qed

text \<open>
  C7. On every submit event the Form wrapper first prevents the default action; it then
  invokes the supplied handler exactly when \<^verbatim>\<open>isValid\<close> is true (the prop, or its default
  when the prop is absent), and does nothing else.
\<close>
theorem form_gate:
  "Form_handleSubmit isValid (Some h) =
     (if isValid = Some False then [PreventDefault] else [PreventDefault, Invoke h])"
  by (simp add: Form_handleSubmit_def split: option.splits)

text \<open>
  C8 speaks of every defined name. The empty string is a defined name, and for it the guard
  \<^verbatim>\<open>if (name)\<close> skips the event: nothing is stored.
\<close>
theorem empty_name_not_stored:
  "formData (handleChange \<lparr> e_name = Some [], e_value = Some (JStr ''x''),
                            e_type = None, e_checked = None \<rparr> initial) [] \<noteq>
     Some (JStr ''x'')"
  by (simp add: handleChange_def initial_def)

text \<open>
  C8, amended. For every change event whose name is present and not the empty string, the change
  handler stores the boolean \<^verbatim>\<open>checked\<close> under the name exactly when the type is
  \<open>checkbox\<close> and \<^verbatim>\<open>checked\<close> is present, and stores \<^verbatim>\<open>value\<close> under the name otherwise;
  every other field of the value map is unchanged.
\<close>
theorem handleChange_stores:
  assumes "e_name t = Some n" and "n \<noteq> []"
  shows "formData (handleChange t st) n =
           (if e_type t = Some ''checkbox'' \<and> e_checked t \<noteq> None
            then Some (JBool (the (e_checked t))) else e_value t) \<and>
         (\<forall>k. k \<noteq> n \<longrightarrow> formData (handleChange t st) k = formData st k)"
  using assms
  by (auto simp: handleChange_def stored_def Let_def split: option.splits)

theorem handleChange_stores_witness:
  "e_name (handleToggle (Some ''rememberMe'') False) = Some ''rememberMe'' \<and>
   ''rememberMe'' \<noteq> [] \<and>
   formData (handleChange (handleToggle (Some ''rememberMe'') False) initial) ''rememberMe'' =
     Some (JBool True) \<and>
   formData (handleChange (handleToggle (Some ''rememberMe'') False) initial) ''role'' =
     Some (JStr ''user'')"
proof -
  have a: "e_name (handleToggle (Some ''rememberMe'') False) = Some ''rememberMe''"
    by (simp add: handleToggle_def)
  have b: "''rememberMe'' \<noteq> []" by simp
  have c: "formData initial ''role'' = Some (JStr ''user'')"
    by (simp add: initial_def)
  show ?thesis
    using handleChange_stores [OF a b, of initial] a c
    by (simp add: handleToggle_def)
qed

section \<open>Properties: Checkbox Group\<close>

lemma newValues_round_trip:
  "optionValue \<notin> set val \<Longrightarrow> newValues (newValues val True optionValue) False optionValue = val"
  by (auto simp: newValues_def filter_id_conv)

text \<open>
  C9. The Checkbox Group emits, under its own name and tagged \<open>checkbox\<close>, the whole new
  array: the old one with the option's value appended when the box is checked, the old one
  without any occurrence of that value when it is unchecked. Toggling an option that is not
  selected and toggling it again gives the original array back.
\<close>
theorem checkbox_group_toggle:
  "e_name (CheckboxGroup_handleChange name val checked optionValue) = name \<and>
   e_type (CheckboxGroup_handleChange name val checked optionValue) = Some ''checkbox'' \<and>
   e_value (CheckboxGroup_handleChange name val True optionValue) =
     Some (JArr (val @ [optionValue])) \<and>
   e_value (CheckboxGroup_handleChange name val False optionValue) =
     Some (JArr (filter (\<lambda>v. v \<noteq> optionValue) val)) \<and>
   (optionValue \<notin> set val \<longrightarrow>
      e_value (toggle name val optionValue) = Some (JArr (val @ [optionValue])) \<and>
      e_value (toggle name (val @ [optionValue]) optionValue) = Some (JArr val))"
  by (auto simp: CheckboxGroup_handleChange_def toggle_def newValues_def filter_id_conv)

theorem checkbox_group_toggle_witness:
  "''music'' \<notin> set [''technology''] \<and>
   e_value (toggle (Some ''interests'') [''technology''] ''music'') =
     Some (JArr [''technology'', ''music'']) \<and>
   e_value (toggle (Some ''interests'') [''technology'', ''music''] ''music'') =
     Some (JArr [''technology''])"
  using checkbox_group_toggle [of "Some ''interests''" "[''technology'']" True "''music''"]
  by simp

section \<open>Properties: Searchable Select\<close>

lemma startsWith_iff: "startsWith s t \<longleftrightarrow> (\<exists>q. s = t @ q)"
  by (induction s t rule: startsWith.induct) auto

lemma str_includes_iff: "str_includes s t \<longleftrightarrow> (\<exists>p q. s = p @ t @ q)"
proof (induction s)
  case Nil
  show ?case by (cases t) auto
next
  case (Cons c cs)
  have "(\<exists>p q. c # cs = p @ t @ q) \<longleftrightarrow> (\<exists>q. c # cs = t @ q) \<or> (\<exists>p q. cs = p @ t @ q)"
    (is "?L \<longleftrightarrow> ?A \<or> ?B")
  proof
    assume ?L
    then obtain p q where *: "c # cs = p @ t @ q" by blast
    show "?A \<or> ?B"
    proof (cases p)
      case Nil
      with * show ?thesis by auto
    next
      case (Cons a p')
      with * have "cs = p' @ t @ q" by simp
      then show ?thesis by blast
    qed
  next
    assume "?A \<or> ?B"
    then show ?L
    proof
      assume ?A
      then obtain q where "c # cs = [] @ t @ q" by auto
      then show ?L by blast
    next
      assume ?B
      then obtain p q where "c # cs = (c # p) @ t @ q" by auto
      then show ?L by blast
    qed
  qed
  then show ?case by (simp add: Cons.IH startsWith_iff)
qed

lemma includes_lower_iff:
  "str_includes (toLowerCase label) (toLowerCase search) \<longleftrightarrow> spec_contains_ci label search"
proof
  assume "str_includes (toLowerCase label) (toLowerCase search)"
  then obtain p q where "map lower_char label = p @ map lower_char search @ q"
    by (auto simp: str_includes_iff toLowerCase_def)
  then have "\<exists>us vs. label = us @ vs \<and> p = map lower_char us \<and>
            map lower_char search @ q = map lower_char vs"
    by (simp add: map_eq_append_conv)
  then obtain p' r where l: "label = p' @ r" and r: "map lower_char r = map lower_char search @ q"
    by auto
  from r have "\<exists>us vs. r = us @ vs \<and> map lower_char search = map lower_char us \<and>
            q = map lower_char vs"
    by (simp add: map_eq_append_conv)
  then obtain m q' where "r = m @ q'" "map lower_char m = map lower_char search"
    by auto
  with l show "spec_contains_ci label search"
    unfolding spec_contains_ci_def toLowerCase_def by blast
next
  assume "spec_contains_ci label search"
  then obtain p m q where "label = p @ m @ q" "toLowerCase m = toLowerCase search"
    unfolding spec_contains_ci_def by blast
  then have "toLowerCase label = toLowerCase p @ toLowerCase search @ toLowerCase q"
    by (simp add: toLowerCase_def)
  then show "str_includes (toLowerCase label) (toLowerCase search)"
    unfolding str_includes_iff by blast
qed

text \<open>
  C10. With search enabled, the Searchable Select lists exactly the options whose label
  contains the search string as a case-insensitive substring, in their order, each row
  selectable; when no option is left it shows the single row \<open>No options found\<close>, which has
  no click handler.
\<close>
theorem select_shows_matching_options:
  "filteredOptions True options search =
     filter (\<lambda>opt. spec_contains_ci (opt_label opt) search) options \<and>
   (filteredOptions True options search \<noteq> [] \<longrightarrow>
      map li_text (Select_items name True options search) =
        map opt_label (filteredOptions True options search) \<and>
      map li_onClick (Select_items name True options search) =
        map (\<lambda>opt. Some (\<lparr> e_name = name, e_value = Some (JStr (opt_value opt)),
                             e_type = None, e_checked = None \<rparr>,
                           \<lparr> isOpen = False, searchTerm = [] \<rparr>))
          (filteredOptions True options search)) \<and>
   (filteredOptions True options search = [] \<longrightarrow>
      Select_items name True options search = [Li ''No options found'' None])"
  by (simp add: filteredOptions_def Select_items_def includes_lower_iff Let_def comp_def)

theorem select_shows_matching_options_witness:
  "filteredOptions True roleOptions ''admin'' \<noteq> [] \<and>
   map li_text (Select_items (Some ''role'') True roleOptions ''admin'') = [''Administrator''] \<and>
   filteredOptions True roleOptions ''xyz'' = [] \<and>
   Select_items (Some ''role'') True roleOptions ''xyz'' = [Li ''No options found'' None]"
proof -
  have a: "filteredOptions True roleOptions ''admin'' =
             [\<lparr> opt_value = ''admin'', opt_label = ''Administrator'' \<rparr>]"
    by code_simp
  have b: "filteredOptions True roleOptions ''xyz'' = []"
    by code_simp
  show ?thesis
    using select_shows_matching_options [of roleOptions "''admin''" "Some ''role''", THEN conjunct2]
      select_shows_matching_options [of roleOptions "''xyz''" "Some ''role''", THEN conjunct2]
    by (simp add: a b)
qed

end
